theory Spec2Isabelle
  imports Main
begin

section \<open>Python values, strings and paths\<close>

text \<open>
  The exceptions the two modules can raise, as values. Every operation that can raise
  returns \<open>error + 'a\<close>, with \<open>Inl\<close> for the exception.
\<close>

datatype error =
    FileNotFoundError | FileExistsError | IsADirectoryError | NotADirectoryError
  | SameFileError | OSError | UnicodeDecodeError
  | KeyError | IndexError | ValueError | TypeError | AttributeError
  | RuntimeError | PicklingError | UnpicklingError | OverflowError

type_synonym path = string

text \<open>
  \<^verbatim>\<open>str.strip()\<close> removes leading and trailing whitespace; a string is a sequence of
  code points below 256, and these are the ones Python counts as whitespace there.
\<close>

definition py_isspace :: "char \<Rightarrow> bool" where
  "py_isspace c = (c \<in> set [CHR 0x09, CHR 0x0A, CHR 0x0B, CHR 0x0C, CHR 0x0D,
                             CHR 0x1C, CHR 0x1D, CHR 0x1E, CHR 0x1F, CHR 0x20,
                             CHR 0x85, CHR 0xA0])"

definition py_strip :: "string \<Rightarrow> string" where
  "py_strip s = rev (dropWhile py_isspace (rev (dropWhile py_isspace s)))"

text \<open>\<^verbatim>\<open>s.strip().replace("\n", "")\<close>, applied to git's output and to the sidecar's text.\<close>

definition strip_replace :: "string \<Rightarrow> string" where
  "strip_replace s = filter (\<lambda>c. c \<noteq> CHR 0x0A) (py_strip s)"

text \<open>\<^verbatim>\<open>str(n)\<close> for an integer, as the f-string \<^verbatim>\<open>f"model_{iteration}.pth"\<close> formats it.\<close>

definition digit_char :: "nat \<Rightarrow> char" where
  "digit_char n = ''0123456789'' ! (n mod 10)"

function str_nat :: "nat \<Rightarrow> string" where
  "str_nat n = (if n < 10 then [digit_char n] else str_nat (n div 10) @ [digit_char n])"
  by pat_completeness auto
termination
  by (relation "measure id") auto

declare str_nat.simps [simp del]

definition str_int :: "int \<Rightarrow> string" where
  "str_int i = (if i < 0 then CHR ''-'' # str_nat (nat (- i)) else str_nat (nat i))"

text \<open>\<^verbatim>\<open>os.path.join(a, b)\<close> and \<^verbatim>\<open>os.path.basename(p)\<close> of posixpath.\<close>

definition path_join :: "path \<Rightarrow> path \<Rightarrow> path" where
  "path_join a b =
     (if b \<noteq> [] \<and> hd b = CHR ''/'' then b
      else if a = [] \<or> last a = CHR ''/'' then a @ b
      else a @ CHR ''/'' # b)"

definition basename :: "path \<Rightarrow> path" where
  "basename p = rev (takeWhile (\<lambda>c. c \<noteq> CHR ''/'') (rev p))"

section \<open>The torch objects the checkpoint functions handle\<close>

text \<open>
  A tensor is its shape and its stored elements; the elements are never computed with,
  only copied, so they are kept as integers (their bit patterns). A state dict is an
  ordered dictionary from parameter names to tensors.
\<close>

datatype tensor = Tensor (shape: "nat list") (elems: "int list")

type_synonym state_dict = "(string \<times> tensor) list"

text \<open>
  A model is a module with its own parameters, or \<^verbatim>\<open>nn.DataParallel\<close> around a model
  (its attribute \<^verbatim>\<open>module\<close>). The \<^verbatim>\<open>state_dict()\<close> of a wrapper names every
  parameter of the wrapped module with the prefix \<^verbatim>\<open>module.\<close>; this is why
  \<^verbatim>\<open>save_checkpoint\<close> and \<^verbatim>\<open>load_checkpoint\<close> test for the wrapper.
\<close>

datatype model = Module state_dict | DataParallel (the_module: model)

definition module_prefix :: string where
  "module_prefix = ''module.''"

definition add_prefix :: "state_dict \<Rightarrow> state_dict" where
  "add_prefix sd = map (\<lambda>(k, t). (module_prefix @ k, t)) sd"

definition has_prefix :: "string \<Rightarrow> bool" where
  "has_prefix k = (take (length module_prefix) k = module_prefix)"

definition strip_prefix :: "state_dict \<Rightarrow> state_dict" where
  "strip_prefix sd = map (\<lambda>(k, t). (drop (length module_prefix) k, t)) sd"

fun state_dict :: "model \<Rightarrow> state_dict" where
  "state_dict (Module ps) = ps"
| "state_dict (DataParallel m) = add_prefix (state_dict m)"

text \<open>
  \<^verbatim>\<open>load_state_dict\<close> is strict: the names of the given state dict must be exactly the
  module's own names and every tensor must have the shape of the parameter it is copied
  into; otherwise it raises \<^verbatim>\<open>RuntimeError\<close>. The parameters keep their order and take
  the given values.
\<close>

fun accepts :: "model \<Rightarrow> state_dict \<Rightarrow> bool" where
  "accepts (Module ps) sd =
     (set (map fst sd) = set (map fst ps) \<and>
      list_all (\<lambda>(k, t). map_option shape (map_of sd k) = Some (shape t)) ps)"
| "accepts (DataParallel m) sd =
     (list_all (\<lambda>(k, t). has_prefix k) sd \<and> accepts m (strip_prefix sd))"

fun assign :: "model \<Rightarrow> state_dict \<Rightarrow> model" where
  "assign (Module ps) sd =
     Module (map (\<lambda>(k, t). (k, case map_of sd k of Some t' \<Rightarrow> t' | None \<Rightarrow> t)) ps)"
| "assign (DataParallel m) sd = DataParallel (assign m (strip_prefix sd))"

definition load_state_dict :: "model \<Rightarrow> state_dict \<Rightarrow> error + model" where
  "load_state_dict m sd = (if accepts m sd then Inr (assign m sd) else Inl RuntimeError)"

text \<open>
  An optimizer's state dict holds its parameter groups and per-parameter buffers. What
  \<^verbatim>\<open>Optimizer.load_state_dict\<close> checks is the number of groups and the number of
  parameters of each group (\<^verbatim>\<open>ValueError\<close> otherwise); the rest is taken over as it is.
  A value stored in a group is a number, a tensor, or a callable (a hyper-parameter given
  as a \<^verbatim>\<open>lambda\<close>), which pickle cannot serialize.
\<close>

datatype pyval = Num int | Buf tensor | Callable

datatype optim_state = OptimState (group_lens: "nat list") (contents: "pyval list")

datatype optimizer = Optimizer (optimizer_state_dict: optim_state)

definition optimizer_load_state_dict :: "optimizer \<Rightarrow> optim_state \<Rightarrow> error + optimizer" where
  "optimizer_load_state_dict opt sd =
     (if group_lens sd \<noteq> group_lens (optimizer_state_dict opt) then Inl ValueError
      else Inr (Optimizer sd))"

text \<open>The values of the dictionary that \<^verbatim>\<open>torch.save\<close> receives.\<close>

datatype pyobj = ModelState state_dict | OptimizerState optim_state

fun picklable :: "pyobj \<Rightarrow> bool" where
  "picklable (ModelState sd) = True"
| "picklable (OptimizerState s) = (Callable \<notin> set (contents s))"

section \<open>The columnar store and the file system\<close>

text \<open>
  An array read from the store is seen along its first axis: a list of rows, each a
  scalar (\<^verbatim>\<open>answers\<close>, \<^verbatim>\<open>image_indices\<close>) or a token sequence (\<^verbatim>\<open>programs\<close>,
  \<^verbatim>\<open>questions\<close>). An HDF file has named datasets and named attributes.
\<close>

datatype cell = Scalar int | Row "int list"

type_synonym ndarray = "cell list"

datatype hdf_file =
  HdfFile (datasets: "(string \<times> ndarray) list") (attrs: "(string \<times> string) list")

text \<open>
  The file system maps a path to what is there: a directory, a text file, a complete
  pickle written by \<^verbatim>\<open>torch.save\<close>, a file that was opened for writing and whose
  serialization stopped part-way, or an HDF file. Paths are compared as strings, and a
  directory is looked up under the path as it is given. Permissions and the space left on
  the device are not part of the model.
\<close>

datatype node =
    Dir | Text string | Pickle "(string \<times> pyobj) list" | Truncated | Hdf hdf_file

type_synonym fs = "path \<rightharpoonup> node"

text \<open>\<^verbatim>\<open>os.makedirs(p)\<close>: raises when the leaf exists.\<close>

definition makedirs :: "fs \<Rightarrow> path \<Rightarrow> (error + unit) \<times> fs" where
  "makedirs fs p = (if fs p \<noteq> None then (Inl FileExistsError, fs) else (Inr (), fs(p \<mapsto> Dir)))"

text \<open>
  \<^verbatim>\<open>shutil.copy(src, dst)\<close>: into \<open>dst\<close> under the source's base name when \<open>dst\<close> is
  a directory.
\<close>

definition shutil_copy :: "fs \<Rightarrow> path \<Rightarrow> path \<Rightarrow> (error + unit) \<times> fs" where
  "shutil_copy fs src dst =
     (let target = (if fs dst = Some Dir then path_join dst (basename src) else dst) in
      case fs src of
        None \<Rightarrow> (Inl FileNotFoundError, fs)
      | Some Dir \<Rightarrow> (Inl IsADirectoryError, fs)
      | Some f \<Rightarrow>
          if target = src then (Inl SameFileError, fs)
          else if fs target = Some Dir then (Inl IsADirectoryError, fs)
          else (Inr (), fs(target \<mapsto> f)))"

text \<open>
  Opening \<^verbatim>\<open>os.path.join(d, name)\<close> for writing, for a \<open>name\<close> without a slash: the
  directory \<open>d\<close> must exist and the path must not be a directory.
\<close>

definition open_w :: "fs \<Rightarrow> path \<Rightarrow> string \<Rightarrow> error + path" where
  "open_w fs d name =
     (case fs d of
        None \<Rightarrow> Inl FileNotFoundError
      | Some Dir \<Rightarrow>
          if fs (path_join d name) = Some Dir then Inl IsADirectoryError
          else Inr (path_join d name)
      | Some _ \<Rightarrow> Inl NotADirectoryError)"

text \<open>\<^verbatim>\<open>with open(os.path.join(d, name), "w") as f: f.write(s)\<close>\<close>

definition write_text :: "fs \<Rightarrow> path \<Rightarrow> string \<Rightarrow> string \<Rightarrow> (error + unit) \<times> fs" where
  "write_text fs d name s =
     (case open_w fs d name of
        Inl e \<Rightarrow> (Inl e, fs)
      | Inr p \<Rightarrow> (Inr (), fs(p \<mapsto> Text s)))"

text \<open>\<^verbatim>\<open>with open(p, "r") as f: f.read()\<close>\<close>

definition read_text :: "fs \<Rightarrow> path \<Rightarrow> error + string" where
  "read_text fs p =
     (case fs p of
        None \<Rightarrow> Inl FileNotFoundError
      | Some Dir \<Rightarrow> Inl IsADirectoryError
      | Some (Text s) \<Rightarrow> Inr s
      | Some _ \<Rightarrow> Inl UnicodeDecodeError)"

text \<open>
  \<^verbatim>\<open>torch.save(obj, os.path.join(d, name))\<close> opens the file at its final path for
  writing and then pickles \<open>obj\<close> into it. When pickling raises, the exception passes
  through and the file stays where it was opened, with whatever had been written.
\<close>

definition torch_save ::
  "fs \<Rightarrow> path \<Rightarrow> string \<Rightarrow> (string \<times> pyobj) list \<Rightarrow> (error + unit) \<times> fs" where
  "torch_save fs d name obj =
     (case open_w fs d name of
        Inl e \<Rightarrow> (Inl e, fs)
      | Inr p \<Rightarrow>
          if list_all (\<lambda>(k, v). picklable v) obj then (Inr (), fs(p \<mapsto> Pickle obj))
          else (Inl PicklingError, fs(p \<mapsto> Truncated)))"

definition torch_load :: "fs \<Rightarrow> path \<Rightarrow> error + (string \<times> pyobj) list" where
  "torch_load fs p =
     (case fs p of
        None \<Rightarrow> Inl FileNotFoundError
      | Some Dir \<Rightarrow> Inl IsADirectoryError
      | Some (Pickle obj) \<Rightarrow> Inr obj
      | Some _ \<Rightarrow> Inl UnpicklingError)"

text \<open>
  \<^verbatim>\<open>subprocess.Popen(["git", "rev-parse", "--short", "HEAD"], ...)\<close> followed by
  \<^verbatim>\<open>communicate()\<close>: either the executable is not there and \<^verbatim>\<open>Popen\<close> raises, or the
  process runs and ends with a return code and its standard output (decoded). Outside a
  work tree git ends with a non-zero code and empty standard output.
\<close>

datatype git_result = GitAbsent | GitRan (returncode: int) (stdout: string)

section \<open>checkpointing.py\<close>

text \<open>
  \<open>now\<close> is \<^verbatim>\<open>datetime.strftime(datetime.now(), "%d-%b-%Y-%H:%M:%S")\<close>. The result is
  the returned path or the exception, and the file system as the call leaves it.
\<close>

definition create_checkpoint_dir ::
  "string \<Rightarrow> git_result \<Rightarrow> fs \<Rightarrow> path \<Rightarrow> path \<Rightarrow> (error + path) \<times> fs" where
  "create_checkpoint_dir now git fs save_dirpath config_ymlpath =
     (let checkpoint_dirpath = path_join save_dirpath now in
      case makedirs fs checkpoint_dirpath of
        (Inl e, fs1) \<Rightarrow> (Inl e, fs1)
      | (Inr _, fs1) \<Rightarrow>
         (case shutil_copy fs1 config_ymlpath checkpoint_dirpath of
            (Inl e, fs2) \<Rightarrow> (Inl e, fs2)
          | (Inr _, fs2) \<Rightarrow>
             (case git of
                GitAbsent \<Rightarrow> (Inl FileNotFoundError, fs2)
              | GitRan rc commit_sha \<Rightarrow>
                 (case write_text fs2 checkpoint_dirpath ''commit_sha.txt''
                         (strip_replace commit_sha) of
                    (Inl e, fs3) \<Rightarrow> (Inl e, fs3)
                  | (Inr _, fs3) \<Rightarrow> (Inr checkpoint_dirpath, fs3)))))"

definition pth_name :: "int \<Rightarrow> string" where
  "pth_name iteration = ''model_'' @ str_int iteration @ ''.pth''"

definition save_checkpoint ::
  "fs \<Rightarrow> path \<Rightarrow> int \<Rightarrow> model \<Rightarrow> optimizer \<Rightarrow> (error + unit) \<times> fs" where
  "save_checkpoint fs checkpoint_dirpath iteration model optimizer =
     (let model_state_dict =
            (case model of DataParallel m \<Rightarrow> state_dict m | Module _ \<Rightarrow> state_dict model)
      in torch_save fs checkpoint_dirpath (pth_name iteration)
           [(''model'', ModelState model_state_dict),
            (''optimizer'', OptimizerState (optimizer_state_dict optimizer))])"

text \<open>
  \<^verbatim>\<open>warnings.warn\<close> issues a warning and returns (under the default filters; it does
  not raise); the warnings a call issued are returned beside its result. Loading
  \<^verbatim>\<open>components[key]\<close> into a module or an optimizer raises \<^verbatim>\<open>KeyError\<close> when the key
  is missing, and as torch does when the value is the wrong kind of state.
\<close>

datatype warning = CommitMismatch (current_commit: string) (checkpoint_commit: string)

definition load_model_state :: "model \<Rightarrow> (string \<times> pyobj) list \<Rightarrow> error + model" where
  "load_model_state m components =
     (case map_of components ''model'' of
        None \<Rightarrow> Inl KeyError
      | Some (ModelState sd) \<Rightarrow> load_state_dict m sd
      | Some (OptimizerState _) \<Rightarrow> Inl RuntimeError)"

definition load_optimizer_state :: "optimizer \<Rightarrow> (string \<times> pyobj) list \<Rightarrow> error + optimizer" where
  "load_optimizer_state opt components =
     (case map_of components ''optimizer'' of
        None \<Rightarrow> Inl KeyError
      | Some (OptimizerState s) \<Rightarrow> optimizer_load_state_dict opt s
      | Some (ModelState _) \<Rightarrow> Inl KeyError)"

definition load_checkpoint ::
  "git_result \<Rightarrow> fs \<Rightarrow> path \<Rightarrow> int \<Rightarrow> model \<Rightarrow> optimizer option
     \<Rightarrow> warning list \<times> (error + model \<times> optimizer option)" where
  "load_checkpoint git fs checkpoint_dirpath iteration model optimizer =
     (case git of
        GitAbsent \<Rightarrow> ([], Inl FileNotFoundError)
      | GitRan rc out \<Rightarrow>
         (let current_commit_sha = strip_replace out in
          case read_text fs (path_join checkpoint_dirpath ''commit_sha.txt'') of
            Inl e \<Rightarrow> ([], Inl e)
          | Inr txt \<Rightarrow>
             (let checkpoint_commit_sha = strip_replace txt;
                  ws = (if current_commit_sha \<noteq> checkpoint_commit_sha
                        then [CommitMismatch current_commit_sha checkpoint_commit_sha]
                        else []);
                  checkpoint_pthpath = path_join checkpoint_dirpath (pth_name iteration)
              in case torch_load fs checkpoint_pthpath of
                   Inl e \<Rightarrow> (ws, Inl e)
                 | Inr components \<Rightarrow>
                    (case (case model of
                             DataParallel m \<Rightarrow>
                               map_sum id DataParallel (load_model_state m components)
                           | Module _ \<Rightarrow> load_model_state model components) of
                       Inl e \<Rightarrow> (ws, Inl e)
                     | Inr model' \<Rightarrow>
                        (case optimizer of
                           None \<Rightarrow> (ws, Inr (model', None))
                         | Some opt \<Rightarrow>
                            (case load_optimizer_state opt components of
                               Inl e \<Rightarrow> (ws, Inl e)
                             | Inr opt' \<Rightarrow> (ws, Inr (model', Some opt'))))))))"

section \<open>readers.py\<close>

text \<open>The class \<^verbatim>\<open>ClevrTokensReader\<close>: its instance attributes, set by \<^verbatim>\<open>__init__\<close>.\<close>

record ClevrTokensReader =
  programs :: ndarray
  questions :: ndarray
  answers :: ndarray
  image_indices :: ndarray
  split_attr :: string

text \<open>\<^verbatim>\<open>h5py.File(p, "r")\<close>: \<^verbatim>\<open>OSError\<close> unless an HDF file is at the path.\<close>

definition h5py_File :: "fs \<Rightarrow> path \<Rightarrow> error + hdf_file" where
  "h5py_File fs p = (case fs p of Some (Hdf h) \<Rightarrow> Inr h | _ \<Rightarrow> Inl OSError)"

text \<open>\<^verbatim>\<open>f[name][:]\<close> and \<^verbatim>\<open>f.attrs[name]\<close>: \<^verbatim>\<open>KeyError\<close> when the name is missing.\<close>

definition dataset :: "hdf_file \<Rightarrow> string \<Rightarrow> error + ndarray" where
  "dataset h name = (case map_of (datasets h) name of None \<Rightarrow> Inl KeyError | Some a \<Rightarrow> Inr a)"

definition attr :: "hdf_file \<Rightarrow> string \<Rightarrow> error + string" where
  "attr h name = (case map_of (attrs h) name of None \<Rightarrow> Inl KeyError | Some a \<Rightarrow> Inr a)"

definition ClevrTokensReader_init :: "fs \<Rightarrow> path \<Rightarrow> error + ClevrTokensReader" where
  "ClevrTokensReader_init fs tokens_hdfpath =
     (case h5py_File fs tokens_hdfpath of
        Inl e \<Rightarrow> Inl e
      | Inr clevr_tokens \<Rightarrow>
         (case dataset clevr_tokens ''programs'' of Inl e \<Rightarrow> Inl e | Inr p \<Rightarrow>
         (case dataset clevr_tokens ''questions'' of Inl e \<Rightarrow> Inl e | Inr q \<Rightarrow>
         (case dataset clevr_tokens ''answers'' of Inl e \<Rightarrow> Inl e | Inr a \<Rightarrow>
         (case dataset clevr_tokens ''image_indices'' of Inl e \<Rightarrow> Inl e | Inr ii \<Rightarrow>
         (case attr clevr_tokens ''split'' of Inl e \<Rightarrow> Inl e | Inr s \<Rightarrow>
            Inr \<lparr>programs = p, questions = q, answers = a, image_indices = ii,
                 split_attr = s\<rparr>))))))"

text \<open>
  \<^verbatim>\<open>__len__\<close> reads the attribute \<^verbatim>\<open>size\<close> of a numpy array, which is an integer (the
  number of elements), and calls it with the argument 0. Calling an integer raises
  \<^verbatim>\<open>TypeError\<close>.
\<close>

definition ndarray_size :: "ndarray \<Rightarrow> int" where
  "ndarray_size a = sum_list (map (\<lambda>c. case c of Scalar _ \<Rightarrow> 1 | Row r \<Rightarrow> int (length r)) a)"

definition call_int :: "int \<Rightarrow> int list \<Rightarrow> error + int" where
  "call_int f args = Inl TypeError"

definition ClevrTokensReader_len :: "ClevrTokensReader \<Rightarrow> error + int" where
  "ClevrTokensReader_len self = call_int (ndarray_size (image_indices self)) [0]"










definition ClevrTokensReader_split :: "ClevrTokensReader \<Rightarrow> string" where
  "ClevrTokensReader_split self = split_attr self"

text \<open>
  The names an instance of the class answers to: the methods and the property of the
  class body and the attributes \<^verbatim>\<open>__init__\<close> sets. Looking up any other name that
  \<^verbatim>\<open>object\<close> does not define raises \<^verbatim>\<open>AttributeError\<close>.
\<close>

datatype attribute = Method | Property | Field

definition ClevrTokensReader_dict :: "(string \<times> attribute) list" where
  "ClevrTokensReader_dict =
     [(''__init__'', Method), (''__len__'', Method), (''__getitem__'', Method),
      (''split'', Property),
      (''programs'', Field), (''questions'', Field), (''answers'', Field),
      (''image_indices'', Field), (''_split'', Field)]"

definition getattr :: "ClevrTokensReader \<Rightarrow> string \<Rightarrow> error + attribute" where
  "getattr self name =
     (case map_of ClevrTokensReader_dict name of
        None \<Rightarrow> Inl AttributeError
      | Some a \<Rightarrow> Inr a)"

section \<open>Vocabulary of the properties\<close>

text \<open>
  The module whose state a checkpoint holds: \<^verbatim>\<open>model.module\<close> when the model is an
  instance of \<^verbatim>\<open>nn.DataParallel\<close>, the model itself otherwise.
\<close>

fun underlying :: "model \<Rightarrow> model" where
  "underlying (DataParallel m) = m"
| "underlying (Module ps) = Module ps"

fun is_wrapped :: "model \<Rightarrow> bool" where
  "is_wrapped (DataParallel m) = True"
| "is_wrapped (Module ps) = False"

text \<open>The dictionary a checkpoint of a model and an optimizer holds.\<close>

definition artifact :: "model \<Rightarrow> optimizer \<Rightarrow> (string \<times> pyobj) list" where
  "artifact m opt =
     [(''model'', ModelState (state_dict (underlying m))),
      (''optimizer'', OptimizerState (optimizer_state_dict opt))]"


text \<open>
  Example inputs: a session directory with its sidecar, a model of two parameters and a
  target of the same architecture, optimizers (one with a callable hyper-parameter), a
  base directory with a config file, a store of ten rows, the same store with only nine
  rows of questions, and the reader over the ten rows.
\<close>

definition session0 :: fs where
  "session0 = [''run'' \<mapsto> Dir, ''run/commit_sha.txt'' \<mapsto> Text ''abc123'']"

definition net :: model where
  "net = Module [(''fc.weight'', Tensor [2] [11, 12]), (''fc.bias'', Tensor [1] [13])]"

definition fresh_net :: model where
  "fresh_net = Module [(''fc.bias'', Tensor [1] [0]), (''fc.weight'', Tensor [2] [0, 0])]"

definition sgd :: optimizer where
  "sgd = Optimizer (OptimState [2] [Num 5, Buf (Tensor [2] [1, 1])])"

definition fresh_sgd :: optimizer where
  "fresh_sgd = Optimizer (OptimState [2] [Num 1])"



definition tokens10 :: ndarray where
  "tokens10 = [Row [0, 7], Row [1, 7], Row [2, 7], Row [3, 7], Row [4, 7],
               Row [5, 7], Row [6, 7], Row [7, 7], Row [8, 7], Row [9, 7]]"

definition scalars10 :: ndarray where
  "scalars10 = [Scalar 0, Scalar 1, Scalar 2, Scalar 3, Scalar 4,
                Scalar 5, Scalar 6, Scalar 7, Scalar 8, Scalar 9]"

definition store10 :: hdf_file where
  "store10 = HdfFile [(''programs'', tokens10), (''questions'', tokens10),
                      (''answers'', scalars10), (''image_indices'', scalars10)]
                     [(''split'', ''train'')]"

definition store_9_of_10 :: hdf_file where
  "store_9_of_10 = HdfFile [(''programs'', tokens10), (''questions'', butlast tokens10),
                            (''answers'', scalars10), (''image_indices'', scalars10)]
                           [(''split'', ''train'')]"

definition reader10 :: ClevrTokensReader where
  "reader10 = \<lparr>programs = tokens10, questions = tokens10, answers = scalars10,
                image_indices = scalars10, split_attr = ''train''\<rparr>"

section \<open>Paths\<close>

lemma pth_name_nonempty: "pth_name i \<noteq> []" "hd (pth_name i) = CHR ''m''"
  by (simp_all add: pth_name_def)

lemma path_join_neq_dir: "b \<noteq> [] \<Longrightarrow> hd b \<noteq> CHR ''/'' \<Longrightarrow> path_join a b \<noteq> a"
  by (auto simp: path_join_def)

lemma path_join_inj:
  "b \<noteq> [] \<Longrightarrow> hd b \<noteq> CHR ''/'' \<Longrightarrow> b' \<noteq> [] \<Longrightarrow> hd b' \<noteq> CHR ''/'' \<Longrightarrow>
   path_join a b = path_join a b' \<Longrightarrow> b = b'"
  by (simp add: path_join_def split: if_splits)

lemma pth_neq_sidecar: "path_join d (pth_name i) \<noteq> path_join d ''commit_sha.txt''"
proof
  assume "path_join d (pth_name i) = path_join d ''commit_sha.txt''"
  then have "pth_name i = ''commit_sha.txt''"
    by (rule path_join_inj[rotated 4]) (simp_all add: pth_name_nonempty)
  then show False by (simp add: pth_name_def)
qed

lemma pth_neq_dir: "path_join d (pth_name i) \<noteq> d"
  by (rule path_join_neq_dir) (simp_all add: pth_name_nonempty)

text \<open>The name of an artifact determines its step: decimal numerals are injective.\<close>

lemma str_nat_nonempty: "str_nat n \<noteq> []"
  by (subst str_nat.simps) simp

lemma last_str_nat: "last (str_nat n) = digit_char n"
  by (subst str_nat.simps) simp

lemma butlast_str_nat: "butlast (str_nat n) = (if n < 10 then [] else str_nat (n div 10))"
  by (subst str_nat.simps) simp

lemma digit_char_inj: "digit_char a = digit_char b \<Longrightarrow> a mod 10 = b mod 10"
proof -
  have d: "distinct ''0123456789''" by simp
  assume "digit_char a = digit_char b"
  then have "''0123456789'' ! (a mod 10) = ''0123456789'' ! (b mod 10)"
    by (simp add: digit_char_def)
  with d show ?thesis
    by (subst (asm) nth_eq_iff_index_eq) simp_all
qed

lemma digit_char_not_minus: "digit_char n \<noteq> CHR ''-''"
proof -
  have "digit_char n \<in> set ''0123456789''"
    unfolding digit_char_def by (rule nth_mem) simp
  then show ?thesis by auto
qed

lemma str_nat_inj: "str_nat n = str_nat m \<Longrightarrow> n = m"
proof (induction n arbitrary: m rule: str_nat.induct)
  case (1 n)
  from "1.prems" have l: "digit_char n = digit_char m"
    using last_str_nat[of n] last_str_nat[of m] by simp
  then have md: "n mod 10 = m mod 10" by (rule digit_char_inj)
  from "1.prems" have b: "butlast (str_nat n) = butlast (str_nat m)" by simp
  show ?case
  proof (cases "n < 10")
    case True
    with b have "m < 10"
      using str_nat_nonempty[of "m div 10"] by (auto simp: butlast_str_nat split: if_splits)
    with True md show ?thesis by simp
  next
    case False
    with b have m: "\<not> m < 10"
      using str_nat_nonempty[of "n div 10"] by (auto simp: butlast_str_nat split: if_splits)
    with b False have "str_nat (n div 10) = str_nat (m div 10)"
      by (simp add: butlast_str_nat)
    with False have "n div 10 = m div 10" by (intro "1.IH") simp_all
    with md show ?thesis by (metis div_mult_mod_eq)
  qed
qed

lemma hd_str_nat_not_minus: "hd (str_nat n) \<noteq> CHR ''-''"
proof (induction n rule: str_nat.induct)
  case (1 n)
  show ?case
  proof (cases "n < 10")
    case True
    then show ?thesis by (subst str_nat.simps) (simp add: digit_char_not_minus)
  next
    case False
    with 1 have "hd (str_nat (n div 10)) \<noteq> CHR ''-''" by simp
    with False show ?thesis
      by (subst str_nat.simps) (simp add: str_nat_nonempty)
  qed
qed

lemma str_int_inj: "str_int i = str_int j \<Longrightarrow> i = j"
proof -
  assume a: "str_int i = str_int j"
  have neg: "\<And>a b. a < 0 \<Longrightarrow> \<not> b < 0 \<Longrightarrow> str_int a \<noteq> str_int b"
  proof
    fix a b :: int assume "a < 0" "\<not> b < 0" "str_int a = str_int b"
    then have "CHR ''-'' # str_nat (nat (- a)) = str_nat (nat b)" by (simp add: str_int_def)
    then have "hd (str_nat (nat b)) = CHR ''-''" by (metis list.sel(1))
    with hd_str_nat_not_minus show False by blast
  qed
  show ?thesis
  proof (cases "i < 0")
    case True
    with a neg[of i j] have "j < 0" by auto
    with True a have "nat (- i) = nat (- j)" by (auto simp: str_int_def dest: str_nat_inj)
    with True \<open>j < 0\<close> show ?thesis by simp
  next
    case False
    with a neg[of j i] have "\<not> j < 0" by auto
    with False a have "nat i = nat j" by (auto simp: str_int_def dest: str_nat_inj)
    with False \<open>\<not> j < 0\<close> show ?thesis by simp
  qed
qed

lemma pth_name_inj: "pth_name i = pth_name j \<Longrightarrow> i = j"
  by (rule str_int_inj) (simp add: pth_name_def)

lemma artifact_path_inj: "path_join d (pth_name i) = path_join d (pth_name j) \<Longrightarrow> i = j"
  by (rule pth_name_inj, rule path_join_inj[rotated 4]) (simp_all add: pth_name_nonempty)

section \<open>State dicts under the wrapper's prefix\<close>

lemma has_prefix_split: "has_prefix k \<Longrightarrow> module_prefix @ drop (length module_prefix) k = k"
  unfolding has_prefix_def by (metis append_take_drop_id)

lemma has_prefix_append: "has_prefix (module_prefix @ k)"
  by (simp add: has_prefix_def)

lemma map_of_add_prefix_append: "map_of (add_prefix xs) (module_prefix @ k) = map_of xs k"
  by (induction xs) (auto simp: add_prefix_def)

lemma map_of_add_prefix_None: "\<not> has_prefix k \<Longrightarrow> map_of (add_prefix xs) k = None"
  by (induction xs) (auto simp: add_prefix_def has_prefix_append)

lemma map_of_add_prefix:
  "map_of (add_prefix xs) k = (if has_prefix k then map_of xs (drop (length module_prefix) k) else None)"
proof (cases "has_prefix k")
  case True
  then show ?thesis
    using map_of_add_prefix_append[of xs "drop (length module_prefix) k"]
    by (simp add: has_prefix_split)
next
  case False
  then show ?thesis by (simp add: map_of_add_prefix_None)
qed

lemma map_of_strip_prefix:
  "list_all (\<lambda>(k, t). has_prefix k) sd \<Longrightarrow> map_of (strip_prefix sd) k = map_of sd (module_prefix @ k)"
proof (induction sd)
  case Nil
  then show ?case by (simp add: strip_prefix_def)
next
  case (Cons a sd)
  obtain k' t where a: "a = (k', t)" by (cases a)
  from Cons.prems a have p: "has_prefix k'" by simp
  from Cons have ih: "map_of (strip_prefix sd) k = map_of sd (module_prefix @ k)" by simp
  have eq: "(drop (length module_prefix) k' = k) = (k' = module_prefix @ k)"
    using has_prefix_split[OF p] by auto
  have "map_of (strip_prefix (a # sd)) k =
          (if drop (length module_prefix) k' = k then Some t else map_of (strip_prefix sd) k)"
    by (simp add: strip_prefix_def a)
  also have "\<dots> = (if k' = module_prefix @ k then Some t else map_of sd (module_prefix @ k))"
    by (simp only: eq ih)
  also have "\<dots> = map_of (a # sd) (module_prefix @ k)"
    by (simp add: a)
  finally show ?case .
qed

lemma map_of_unprefixed:
  "list_all (\<lambda>(k, t). has_prefix k) sd \<Longrightarrow> \<not> has_prefix k \<Longrightarrow> map_of sd k = None"
  by (induction sd) auto

lemma map_of_assign_Module:
  "map_of (map (\<lambda>(k, t). (k, case map_of sd k of Some t' \<Rightarrow> t' | None \<Rightarrow> t)) ps) k =
     (case map_of ps k of None \<Rightarrow> None | Some t \<Rightarrow> Some (case map_of sd k of Some t' \<Rightarrow> t' | None \<Rightarrow> t))"
  by (induction ps) (auto split: option.splits)

lemma assign_state: "accepts m sd \<Longrightarrow> map_of (state_dict (assign m sd)) = map_of sd"
proof (induction m arbitrary: sd)
  case (Module ps)
  show ?case
  proof
    fix k
    from Module have keys: "(map_of sd k = None) = (map_of ps k = None)"
      by (simp add: map_of_eq_None_iff)
    then show "map_of (state_dict (assign (Module ps) sd)) k = map_of sd k"
      by (auto simp: map_of_assign_Module split: option.splits)
  qed
next
  case (DataParallel m)
  then have pre: "list_all (\<lambda>(k, t). has_prefix k) sd" and acc: "accepts m (strip_prefix sd)"
    by simp_all
  have ih: "map_of (state_dict (assign m (strip_prefix sd))) = map_of (strip_prefix sd)"
    by (rule DataParallel.IH[OF acc])
  show ?case
  proof
    fix k
    show "map_of (state_dict (assign (DataParallel m) sd)) k = map_of sd k"
    proof (cases "has_prefix k")
      case True
      then show ?thesis
        by (simp add: map_of_add_prefix ih map_of_strip_prefix[OF pre] has_prefix_split)
    next
      case False
      then show ?thesis
        by (simp add: map_of_add_prefix map_of_unprefixed[OF pre])
    qed
  qed
qed

section \<open>What saving and loading do to the file system\<close>

lemma save_checkpoint_artifact:
  "save_checkpoint fs d i m opt = torch_save fs d (pth_name i) (artifact m opt)"
  by (cases m) (simp_all add: save_checkpoint_def artifact_def)

lemma open_w_Inr:
  "open_w fs d name = Inr p \<Longrightarrow> p = path_join d name \<and> fs d = Some Dir \<and> fs p \<noteq> Some Dir"
  by (auto simp: open_w_def split: option.splits node.splits if_splits)

lemma torch_save_ok:
  "torch_save fs d name obj = (Inr (), fs') \<Longrightarrow>
     fs' = fs(path_join d name \<mapsto> Pickle obj) \<and> fs d = Some Dir"
  by (auto simp: torch_save_def dest: open_w_Inr split: sum.splits if_splits)

lemma save_checkpoint_ok:
  "save_checkpoint fs d i m opt = (Inr (), fs') \<Longrightarrow>
     fs' = fs(path_join d (pth_name i) \<mapsto> Pickle (artifact m opt)) \<and> fs d = Some Dir"
  by (simp add: save_checkpoint_artifact torch_save_ok)

lemma open_w_after_write:
  assumes "open_w fs d name = Inr p" "name \<noteq> []" "hd name \<noteq> CHR ''/''" "x \<noteq> Dir"
  shows "open_w (fs(p \<mapsto> x)) d name = Inr p"
proof -
  from assms(1) have p: "p = path_join d name" "fs d = Some Dir" by (auto dest: open_w_Inr)
  have "p \<noteq> d" unfolding p by (rule path_join_neq_dir[OF assms(2,3)])
  with p assms(4) show ?thesis by (simp add: open_w_def)
qed

lemma torch_save_twice:
  assumes "name \<noteq> []" "hd name \<noteq> CHR ''/''"
  shows "torch_save (snd (torch_save fs d name obj1)) d name obj2 = torch_save fs d name obj2"
proof (cases "open_w fs d name")
  case (Inl e)
  then show ?thesis by (simp add: torch_save_def)
next
  case (Inr p)
  have 1: "open_w (fs(p \<mapsto> Pickle obj1)) d name = Inr p" 
    by (rule open_w_after_write[OF Inr assms]) simp
  have 2: "open_w (fs(p \<mapsto> Truncated)) d name = Inr p" 
    by (rule open_w_after_write[OF Inr assms]) simp
  show ?thesis using Inr 1 2 by (simp add: torch_save_def)
qed

lemma load_model_state_artifact:
  "load_model_state t (artifact m opt) = load_state_dict t (state_dict (underlying m))"
  by (simp add: load_model_state_def artifact_def)

lemma load_optimizer_state_artifact:
  "load_optimizer_state topt (artifact m opt) =
     optimizer_load_state_dict topt (optimizer_state_dict opt)"
  by (simp add: load_optimizer_state_def artifact_def)

lemma load_checkpoint_unfold:
  assumes "read_text fs (path_join d ''commit_sha.txt'') = Inr tag"
    and "fs (path_join d (pth_name i)) = Some (Pickle comps)"
  shows "load_checkpoint (GitRan rc out) fs d i tm topt =
     (let ws = (if strip_replace out \<noteq> strip_replace tag
                then [CommitMismatch (strip_replace out) (strip_replace tag)] else [])
      in case (case tm of DataParallel t \<Rightarrow> map_sum id DataParallel (load_model_state t comps)
                        | Module _ \<Rightarrow> load_model_state tm comps) of
           Inl e \<Rightarrow> (ws, Inl e)
         | Inr model' \<Rightarrow>
            (case topt of
               None \<Rightarrow> (ws, Inr (model', None))
             | Some opt \<Rightarrow>
                (case load_optimizer_state opt comps of
                   Inl e \<Rightarrow> (ws, Inl e)
                 | Inr opt' \<Rightarrow> (ws, Inr (model', Some opt')))))"
  using assms by (simp add: load_checkpoint_def torch_load_def Let_def)

lemma load_checkpoint_saved:
  assumes side: "read_text fs (path_join d ''commit_sha.txt'') = Inr tag"
    and art: "fs (path_join d (pth_name i)) = Some (Pickle (artifact m opt))"
    and acc: "accepts (underlying tm) (state_dict (underlying m))"
  shows "\<exists>m'. load_checkpoint (GitRan rc out) fs d i tm None =
                 (if strip_replace out \<noteq> strip_replace tag
                  then [CommitMismatch (strip_replace out) (strip_replace tag)] else [],
                  Inr (m', None)) \<and>
              (\<forall>topt. group_lens (optimizer_state_dict topt) = group_lens (optimizer_state_dict opt) \<longrightarrow>
                 load_checkpoint (GitRan rc out) fs d i tm (Some topt) =
                 (if strip_replace out \<noteq> strip_replace tag
                  then [CommitMismatch (strip_replace out) (strip_replace tag)] else [],
                  Inr (m', Some (Optimizer (optimizer_state_dict opt))))) \<and>
              map_of (state_dict (underlying m')) = map_of (state_dict (underlying m)) \<and>
              is_wrapped m' = is_wrapped tm"
proof (cases tm)
  case (Module ps)
  with acc have a: "accepts tm (state_dict (underlying m))" by simp
  let ?m' = "assign tm (state_dict (underlying m))"
  have st: "map_of (state_dict (underlying ?m')) = map_of (state_dict (underlying m))"
    using assign_state[OF a] Module by simp
  have w: "is_wrapped ?m' = is_wrapped tm" using Module by simp
  have l: "load_model_state tm (artifact m opt) = Inr ?m'"
    using a by (simp add: load_model_state_artifact load_state_dict_def)
  show ?thesis
    apply (rule exI[of _ ?m'])
    using st w l Module
    by (simp add: load_checkpoint_unfold[OF side art] load_optimizer_state_artifact
        optimizer_load_state_dict_def)
next
  case (DataParallel t)
  with acc have a: "accepts t (state_dict (underlying m))" by simp
  let ?m' = "DataParallel (assign t (state_dict (underlying m)))"
  have st: "map_of (state_dict (underlying ?m')) = map_of (state_dict (underlying m))"
    using assign_state[OF a] by simp
  have l: "load_model_state t (artifact m opt) = Inr (assign t (state_dict (underlying m)))"
    using a by (simp add: load_model_state_artifact load_state_dict_def)
  show ?thesis
    apply (rule exI[of _ ?m'])
    using st l DataParallel
    by (simp add: load_checkpoint_unfold[OF side art] load_optimizer_state_artifact
        optimizer_load_state_dict_def)
qed

lemma read_text_upd: "p \<noteq> q \<Longrightarrow> read_text (fs(p \<mapsto> x)) q = read_text fs q"
  by (simp add: read_text_def)

lemma load_checkpoint_tag_independent:
  assumes "read_text fs (path_join d ''commit_sha.txt'') = Inr tag"
  shows "load_checkpoint (GitRan rc out) fs d i tm topt =
           (if strip_replace out \<noteq> strip_replace tag
            then [CommitMismatch (strip_replace out) (strip_replace tag)] else [],
            snd (load_checkpoint (GitRan rc' out') fs d i tm topt))"
  using assms
  by (simp add: load_checkpoint_def Let_def split: sum.splits option.splits)





text \<open>A session that \<open>create_checkpoint_dir\<close> returned has its directory and its sidecar.\<close>

lemma create_checkpoint_dir_session:
  assumes "create_checkpoint_dir now git fs base cfg = (Inr d, fs')"
  shows "\<exists>rc out. git = GitRan rc out \<and> fs' d = Some Dir \<and>
           read_text fs' (path_join d ''commit_sha.txt'') = Inr (strip_replace out)"
proof (cases git)
  case GitAbsent
  with assms show ?thesis
    by (simp add: create_checkpoint_dir_def Let_def split: prod.splits sum.splits)
next
  case (GitRan rc out)
  from assms GitRan obtain fs2 where
    w: "write_text fs2 d ''commit_sha.txt'' (strip_replace out) = (Inr (), fs')"
    by (auto simp: create_checkpoint_dir_def Let_def split: prod.splits sum.splits)
  then have o: "open_w fs2 d ''commit_sha.txt'' = Inr (path_join d ''commit_sha.txt'')"
      and fs': "fs' = fs2(path_join d ''commit_sha.txt'' \<mapsto> Text (strip_replace out))"
    by (auto simp: write_text_def dest: open_w_Inr split: sum.splits)
  from o have "fs2 d = Some Dir" by (auto dest: open_w_Inr)
  moreover have "path_join d ''commit_sha.txt'' \<noteq> d" by (rule path_join_neq_dir) simp_all
  ultimately have "fs' d = Some Dir" by (simp add: fs')
  moreover have "read_text fs' (path_join d ''commit_sha.txt'') = Inr (strip_replace out)"
    by (simp add: fs' read_text_def)
  ultimately show ?thesis using GitRan by simp
qed

lemma pth_name_3: "pth_name 3 = ''model_3.pth''"
  by (simp add: pth_name_def str_int_def str_nat.simps digit_char_def)

section \<open>Checkpoints: the claims\<close>

text \<open>
  Claim C1 (round trip). Take a session directory with its sidecar, save a model and an
  optimizer for a step, and load the same step into targets that accept the saved state
  (a model whose underlying module has the saved parameter names and shapes, an
  optimizer with the saved group sizes). Whatever git prints at load time, the load
  returns the targets, and they then hold the saved state: the underlying module has the
  saved tensor under every parameter name, and the optimizer's state dict is the saved
  one. Loading the model alone restores the same model.
\<close>

theorem save_load_round_trip:
  assumes "save_checkpoint fs d step m opt = (Inr (), fs')"
    and "read_text fs (path_join d ''commit_sha.txt'') = Inr tag"
    and "accepts (underlying tm) (state_dict (underlying m))"
    and "group_lens (optimizer_state_dict topt) = group_lens (optimizer_state_dict opt)"
  shows "\<exists>ws m' opt'.
           load_checkpoint (GitRan rc out) fs' d step tm (Some topt) = (ws, Inr (m', Some opt')) \<and>
           load_checkpoint (GitRan rc out) fs' d step tm None = (ws, Inr (m', None)) \<and>
           map_of (state_dict (underlying m')) = map_of (state_dict (underlying m)) \<and>
           optimizer_state_dict opt' = optimizer_state_dict opt"
proof -
  from save_checkpoint_ok[OF assms(1)]
  have fs': "fs' = fs(path_join d (pth_name step) \<mapsto> Pickle (artifact m opt))" by simp
  have side: "read_text fs' (path_join d ''commit_sha.txt'') = Inr tag"
    unfolding fs' using assms(2) by (simp add: read_text_upd pth_neq_sidecar)
  have art: "fs' (path_join d (pth_name step)) = Some (Pickle (artifact m opt))"
    unfolding fs' by simp
  from load_checkpoint_saved[OF side art assms(3), of rc out] assms(4)
  show ?thesis by auto
qed

text \<open>The round trip at a concrete session, saving a wrapped model and loading into a plain one.\<close>

theorem save_load_round_trip_witness:
  "save_checkpoint session0 ''run'' 3 (DataParallel net) sgd =
     (Inr (), session0(''run/model_3.pth'' \<mapsto> Pickle (artifact (DataParallel net) sgd))) \<and>
   read_text session0 (path_join ''run'' ''commit_sha.txt'') = Inr ''abc123'' \<and>
   accepts (underlying fresh_net) (state_dict (underlying (DataParallel net))) \<and>
   group_lens (optimizer_state_dict fresh_sgd) = group_lens (optimizer_state_dict sgd) \<and>
   (\<exists>ws m' opt'.
      load_checkpoint (GitRan 0 ''abc123'')
        (session0(''run/model_3.pth'' \<mapsto> Pickle (artifact (DataParallel net) sgd)))
        ''run'' 3 fresh_net (Some fresh_sgd) = (ws, Inr (m', Some opt')) \<and>
      load_checkpoint (GitRan 0 ''abc123'')
        (session0(''run/model_3.pth'' \<mapsto> Pickle (artifact (DataParallel net) sgd)))
        ''run'' 3 fresh_net None = (ws, Inr (m', None)) \<and>
      map_of (state_dict (underlying m')) = map_of (state_dict (underlying (DataParallel net))) \<and>
      optimizer_state_dict opt' = optimizer_state_dict sgd)"
proof -
  have h1: "save_checkpoint session0 ''run'' 3 (DataParallel net) sgd =
     (Inr (), session0(''run/model_3.pth'' \<mapsto> Pickle (artifact (DataParallel net) sgd)))"
    by (simp add: save_checkpoint_artifact torch_save_def open_w_def pth_name_3 path_join_def
        session0_def artifact_def sgd_def)
  have h2: "read_text session0 (path_join ''run'' ''commit_sha.txt'') = Inr ''abc123''"
    by (simp add: read_text_def path_join_def session0_def)
  have h3: "accepts (underlying fresh_net) (state_dict (underlying (DataParallel net)))"
    by (auto simp: fresh_net_def net_def)
  have h4: "group_lens (optimizer_state_dict fresh_sgd) = group_lens (optimizer_state_dict sgd)"
    by (simp add: fresh_sgd_def sgd_def)
  from save_load_round_trip[OF h1 h2 h3 h4, of 0 "''abc123''"] h1 h2 h3 h4
  show ?thesis by simp
qed

text \<open>
  Claim C2 (overwrite). Saving a step that was saved before gives the result and the
  file system that the second save alone gives on the original file system: nothing of
  the first save remains. When the second save succeeds, the file system differs from the
  original one only at the one path named by the step, and that file holds the second
  state. The artifact of any other step is left as it was.
\<close>

theorem save_twice_overwrites:
  "save_checkpoint (snd (save_checkpoint fs d step m1 opt1)) d step m2 opt2 =
     save_checkpoint fs d step m2 opt2 \<and>
   (fst (save_checkpoint fs d step m2 opt2) = Inr () \<longrightarrow>
      snd (save_checkpoint fs d step m2 opt2) =
        fs(path_join d (pth_name step) \<mapsto> Pickle (artifact m2 opt2))) \<and>
   (step' \<noteq> step \<longrightarrow>
      snd (save_checkpoint fs d step m2 opt2) (path_join d (pth_name step')) =
        fs (path_join d (pth_name step')))"
proof (intro conjI impI)
  show "save_checkpoint (snd (save_checkpoint fs d step m1 opt1)) d step m2 opt2 =
     save_checkpoint fs d step m2 opt2"
    unfolding save_checkpoint_artifact
    by (rule torch_save_twice) (simp_all add: pth_name_nonempty)
next
  assume "fst (save_checkpoint fs d step m2 opt2) = Inr ()"
  then show "snd (save_checkpoint fs d step m2 opt2) =
        fs(path_join d (pth_name step) \<mapsto> Pickle (artifact m2 opt2))"
    using save_checkpoint_ok[of fs d step m2 opt2 "snd (save_checkpoint fs d step m2 opt2)"]
    by (cases "save_checkpoint fs d step m2 opt2") auto
next
  assume "step' \<noteq> step"
  then have "path_join d (pth_name step) \<noteq> path_join d (pth_name step')"
    by (auto dest: artifact_path_inj)
  then show "snd (save_checkpoint fs d step m2 opt2) (path_join d (pth_name step')) =
        fs (path_join d (pth_name step'))"
    by (auto simp: save_checkpoint_artifact torch_save_def dest: open_w_Inr split: sum.splits)
qed

text \<open>Two saves of step 3 in a concrete session.\<close>

theorem save_twice_overwrites_witness:
  "fst (save_checkpoint session0 ''run'' 3 fresh_net fresh_sgd) = Inr () \<and> (4::int) \<noteq> 3 \<and>
   save_checkpoint (snd (save_checkpoint session0 ''run'' 3 net sgd)) ''run'' 3 fresh_net fresh_sgd =
     (Inr (), session0(''run/model_3.pth'' \<mapsto> Pickle (artifact fresh_net fresh_sgd))) \<and>
   snd (save_checkpoint session0 ''run'' 3 fresh_net fresh_sgd) (path_join ''run'' (pth_name 4)) =
     session0 (path_join ''run'' (pth_name 4))"
proof -
  have h: "save_checkpoint session0 ''run'' 3 fresh_net fresh_sgd =
     (Inr (), session0(''run/model_3.pth'' \<mapsto> Pickle (artifact fresh_net fresh_sgd)))"
    by (simp add: save_checkpoint_artifact torch_save_def open_w_def pth_name_3 path_join_def
        session0_def artifact_def fresh_sgd_def)
  note t = save_twice_overwrites[of session0 "''run''" 3 net sgd fresh_net fresh_sgd 4]
  from t have a: "save_checkpoint (snd (save_checkpoint session0 ''run'' 3 net sgd)) ''run'' 3
      fresh_net fresh_sgd = save_checkpoint session0 ''run'' 3 fresh_net fresh_sgd"
    by (rule conjunct1)
  from t have b: "snd (save_checkpoint session0 ''run'' 3 fresh_net fresh_sgd)
      (path_join ''run'' (pth_name 4)) = session0 (path_join ''run'' (pth_name 4))"
    by simp
  from h have c: "fst (save_checkpoint session0 ''run'' 3 fresh_net fresh_sgd) = Inr ()"
    by simp
  from a h b c show ?thesis by simp
qed

text \<open>
  Claim C3 (provenance mismatch). When git prints a tag that differs from the one in the
  session's sidecar, the load issues exactly one warning, which names both tags, and its
  result is the result of the load that finds the recorded tag (which issues no
  warning): the mismatch changes nothing else. In particular, when the artifact of the
  step holds a saved state that the targets accept, the load succeeds and the targets
  hold the saved state.
\<close>

theorem provenance_mismatch_only_warns:
  assumes "read_text fs (path_join d ''commit_sha.txt'') = Inr tag"
    and "strip_replace out \<noteq> strip_replace tag"
  shows "load_checkpoint (GitRan rc out) fs d step tm topt =
           ([CommitMismatch (strip_replace out) (strip_replace tag)],
            snd (load_checkpoint (GitRan rc' tag) fs d step tm topt)) \<and>
         fst (load_checkpoint (GitRan rc' tag) fs d step tm topt) = [] \<and>
         (fs (path_join d (pth_name step)) = Some (Pickle (artifact m opt)) \<and>
          accepts (underlying tm) (state_dict (underlying m)) \<and>
          topt = Some target_opt \<and>
          group_lens (optimizer_state_dict target_opt) = group_lens (optimizer_state_dict opt) \<longrightarrow>
          (\<exists>m' opt'.
             load_checkpoint (GitRan rc out) fs d step tm topt =
               ([CommitMismatch (strip_replace out) (strip_replace tag)], Inr (m', Some opt')) \<and>
             map_of (state_dict (underlying m')) = map_of (state_dict (underlying m)) \<and>
             optimizer_state_dict opt' = optimizer_state_dict opt))"
proof (intro conjI impI)
  show "load_checkpoint (GitRan rc out) fs d step tm topt =
           ([CommitMismatch (strip_replace out) (strip_replace tag)],
            snd (load_checkpoint (GitRan rc' tag) fs d step tm topt))"
    using load_checkpoint_tag_independent[OF assms(1), of rc out step tm topt rc' tag] assms(2)
    by simp
  show "fst (load_checkpoint (GitRan rc' tag) fs d step tm topt) = []"
    by (subst load_checkpoint_tag_independent[OF assms(1), of rc' tag step tm topt rc' tag])
      simp
next
  assume a: "fs (path_join d (pth_name step)) = Some (Pickle (artifact m opt)) \<and>
          accepts (underlying tm) (state_dict (underlying m)) \<and>
          topt = Some target_opt \<and>
          group_lens (optimizer_state_dict target_opt) = group_lens (optimizer_state_dict opt)"
  then have art: "fs (path_join d (pth_name step)) = Some (Pickle (artifact m opt))"
    and acc: "accepts (underlying tm) (state_dict (underlying m))" by simp_all
  from load_checkpoint_saved[OF assms(1) art acc, of rc out] a assms(2)
  show "\<exists>m' opt'.
             load_checkpoint (GitRan rc out) fs d step tm topt =
               ([CommitMismatch (strip_replace out) (strip_replace tag)], Inr (m', Some opt')) \<and>
             map_of (state_dict (underlying m')) = map_of (state_dict (underlying m)) \<and>
             optimizer_state_dict opt' = optimizer_state_dict opt"
    by auto
qed


text \<open>A session recorded at \<^verbatim>\<open>abc123\<close>, loaded when git prints \<^verbatim>\<open>def456\<close>.\<close>

theorem provenance_mismatch_only_warns_witness:
  "read_text (session0(''run/model_3.pth'' \<mapsto> Pickle (artifact net sgd)))
     (path_join ''run'' ''commit_sha.txt'') = Inr ''abc123'' \<and>
   strip_replace ''def456'' \<noteq> strip_replace ''abc123'' \<and>
   (session0(''run/model_3.pth'' \<mapsto> Pickle (artifact net sgd))) (path_join ''run'' (pth_name 3)) =
     Some (Pickle (artifact net sgd)) \<and>
   accepts (underlying fresh_net) (state_dict (underlying net)) \<and>
   group_lens (optimizer_state_dict fresh_sgd) = group_lens (optimizer_state_dict sgd) \<and>
   (\<exists>m' opt'.
      load_checkpoint (GitRan 0 ''def456'') (session0(''run/model_3.pth'' \<mapsto> Pickle (artifact net sgd)))
        ''run'' 3 fresh_net (Some fresh_sgd) =
        ([CommitMismatch ''def456'' ''abc123''], Inr (m', Some opt')) \<and>
      map_of (state_dict (underlying m')) = map_of (state_dict (underlying net)) \<and>
      optimizer_state_dict opt' = optimizer_state_dict sgd)"
proof -
  let ?fs = "session0(''run/model_3.pth'' \<mapsto> Pickle (artifact net sgd))"
  have h1: "read_text ?fs (path_join ''run'' ''commit_sha.txt'') = Inr ''abc123''"
    by (simp add: read_text_def path_join_def session0_def)
  have s1: "strip_replace ''def456'' = ''def456''" and s2: "strip_replace ''abc123'' = ''abc123''"
    by (simp_all add: strip_replace_def py_strip_def py_isspace_def)
  have h2: "strip_replace ''def456'' \<noteq> strip_replace ''abc123''"
    by (simp add: s1 s2)
  have h3: "?fs (path_join ''run'' (pth_name 3)) = Some (Pickle (artifact net sgd))"
    by (simp add: path_join_def pth_name_3)
  have h4: "accepts (underlying fresh_net) (state_dict (underlying net))"
    by (auto simp: fresh_net_def net_def)
  have h5: "group_lens (optimizer_state_dict fresh_sgd) = group_lens (optimizer_state_dict sgd)"
    by (simp add: fresh_sgd_def sgd_def)
  have "\<exists>m' opt'.
      load_checkpoint (GitRan 0 ''def456'') ?fs ''run'' 3 fresh_net (Some fresh_sgd) =
        ([CommitMismatch (strip_replace ''def456'') (strip_replace ''abc123'')],
         Inr (m', Some opt')) \<and>
      map_of (state_dict (underlying m')) = map_of (state_dict (underlying net)) \<and>
      optimizer_state_dict opt' = optimizer_state_dict sgd"
    using provenance_mismatch_only_warns[OF h1 h2, where step = 3 and m = net and opt = sgd
      and tm = fresh_net and topt = "Some fresh_sgd" and target_opt = fresh_sgd
      and rc = 0 and rc' = 0] h3 h4 h5
    by blast
  then have "\<exists>m' opt'.
      load_checkpoint (GitRan 0 ''def456'') ?fs ''run'' 3 fresh_net (Some fresh_sgd) =
        ([CommitMismatch ''def456'' ''abc123''], Inr (m', Some opt')) \<and>
      map_of (state_dict (underlying m')) = map_of (state_dict (underlying net)) \<and>
      optimizer_state_dict opt' = optimizer_state_dict sgd"
    unfolding s1 s2 .
  with h1 h2 h3 h4 h5 show ?thesis by (intro conjI)
qed

text \<open>
  Claim C10 (data-parallel wrapping). Saving a module wrapped in \<^verbatim>\<open>nn.DataParallel\<close>
  gives the same result and the same file system as saving the module itself: the
  artifact holds, under the key \<^verbatim>\<open>model\<close>, the state dict of the unwrapped module
  (without the wrapper's prefix). Loading that artifact into an accepting module and
  into the same module wrapped restores the same module state, the second inside the
  wrapper; for every load, the wrapped target gets what the unwrapped one gets.
\<close>

theorem checkpoints_across_data_parallel:
  assumes "save_checkpoint fs d step (Module ps) opt = (Inr (), fs')"
    and "read_text fs (path_join d ''commit_sha.txt'') = Inr tag"
    and "accepts (Module ps') ps"
  shows "save_checkpoint fs d step (DataParallel (Module ps)) opt = (Inr (), fs') \<and>
         torch_load fs' (path_join d (pth_name step)) =
           Inr [(''model'', ModelState ps),
                (''optimizer'', OptimizerState (optimizer_state_dict opt))] \<and>
         (\<exists>ws m'.
            load_checkpoint (GitRan rc out) fs' d step (Module ps') None =
              (ws, Inr (m', None)) \<and>
            load_checkpoint (GitRan rc out) fs' d step (DataParallel (Module ps')) None =
              (ws, Inr (DataParallel m', None)) \<and>
            map_of (state_dict m') = map_of ps) \<and>
         load_checkpoint git fs' d step (DataParallel (Module ps')) topt =
           map_prod id (map_sum id (map_prod DataParallel id))
             (load_checkpoint git fs' d step (Module ps') topt)"
proof (intro conjI)
  show "save_checkpoint fs d step (DataParallel (Module ps)) opt = (Inr (), fs')"
    using assms(1) by (simp add: save_checkpoint_def)
  from save_checkpoint_ok[OF assms(1)]
  have fs': "fs' = fs(path_join d (pth_name step) \<mapsto> Pickle (artifact (Module ps) opt))"
    by simp
  have art: "fs' (path_join d (pth_name step)) = Some (Pickle (artifact (Module ps) opt))"
    unfolding fs' by simp
  then show "torch_load fs' (path_join d (pth_name step)) =
           Inr [(''model'', ModelState ps),
                (''optimizer'', OptimizerState (optimizer_state_dict opt))]"
    by (simp add: torch_load_def artifact_def)
  have side: "read_text fs' (path_join d ''commit_sha.txt'') = Inr tag"
    unfolding fs' using assms(2) by (simp add: read_text_upd pth_neq_sidecar)
  have l: "load_model_state (Module ps') (artifact (Module ps) opt) = Inr (assign (Module ps') ps)"
    using assms(3) by (simp add: load_model_state_artifact load_state_dict_def)
  have st: "map_of (state_dict (assign (Module ps') ps)) = map_of ps"
    by (rule assign_state[OF assms(3)])
  show "\<exists>ws m'.
            load_checkpoint (GitRan rc out) fs' d step (Module ps') None =
              (ws, Inr (m', None)) \<and>
            load_checkpoint (GitRan rc out) fs' d step (DataParallel (Module ps')) None =
              (ws, Inr (DataParallel m', None)) \<and>
            map_of (state_dict m') = map_of ps"
    apply (rule exI[of _ "if strip_replace out \<noteq> strip_replace tag
                  then [CommitMismatch (strip_replace out) (strip_replace tag)] else []"])
    apply (rule exI[of _ "assign (Module ps') ps"])
    using st l by (simp add: load_checkpoint_unfold[OF side art] del: assign.simps)
  show "load_checkpoint git fs' d step (DataParallel (Module ps')) topt =
     map_prod id (map_sum id (map_prod DataParallel id))
       (load_checkpoint git fs' d step (Module ps') topt)"
    by (simp add: load_checkpoint_def Let_def split: git_result.splits sum.splits option.splits)
qed

text \<open>A concrete session: saved plain or wrapped, loaded into a plain and a wrapped target.\<close>

theorem checkpoints_across_data_parallel_witness:
  "save_checkpoint session0 ''run'' 3 net sgd =
     (Inr (), session0(''run/model_3.pth'' \<mapsto> Pickle (artifact net sgd))) \<and>
   read_text session0 (path_join ''run'' ''commit_sha.txt'') = Inr ''abc123'' \<and>
   accepts fresh_net (state_dict net) \<and>
   save_checkpoint session0 ''run'' 3 (DataParallel net) sgd =
     (Inr (), session0(''run/model_3.pth'' \<mapsto> Pickle (artifact net sgd))) \<and>
   (\<exists>ws m'.
      load_checkpoint (GitRan 0 ''abc123'')
        (session0(''run/model_3.pth'' \<mapsto> Pickle (artifact net sgd))) ''run'' 3 fresh_net None =
        (ws, Inr (m', None)) \<and>
      load_checkpoint (GitRan 0 ''abc123'')
        (session0(''run/model_3.pth'' \<mapsto> Pickle (artifact net sgd))) ''run'' 3
        (DataParallel fresh_net) None =
        (ws, Inr (DataParallel m', None)) \<and>
      map_of (state_dict m') = map_of (state_dict net))"
proof -
  have h1: "save_checkpoint session0 ''run'' 3 net sgd =
     (Inr (), session0(''run/model_3.pth'' \<mapsto> Pickle (artifact net sgd)))"
    by (simp add: save_checkpoint_artifact torch_save_def open_w_def pth_name_3 path_join_def
        session0_def artifact_def sgd_def)
  have h2: "read_text session0 (path_join ''run'' ''commit_sha.txt'') = Inr ''abc123''"
    by (simp add: read_text_def path_join_def session0_def)
  have h3: "accepts fresh_net (state_dict net)"
    by (auto simp: fresh_net_def net_def)
  have n: "net = Module (state_dict net)" and f: "fresh_net = Module (state_dict fresh_net)"
    by (simp_all add: net_def fresh_net_def)
  note t = checkpoints_across_data_parallel[where ps = "state_dict net"
      and ps' = "state_dict fresh_net" and rc = 0 and out = "''abc123''" and git = GitAbsent
      and topt = None, folded n f, OF h1 h2 h3]
  from t have a: "save_checkpoint session0 ''run'' 3 (DataParallel net) sgd =
     (Inr (), session0(''run/model_3.pth'' \<mapsto> Pickle (artifact net sgd)))"
    by (rule conjunct1)
  from t have b: "\<exists>ws m'.
      load_checkpoint (GitRan 0 ''abc123'')
        (session0(''run/model_3.pth'' \<mapsto> Pickle (artifact net sgd))) ''run'' 3 fresh_net None =
        (ws, Inr (m', None)) \<and>
      load_checkpoint (GitRan 0 ''abc123'')
        (session0(''run/model_3.pth'' \<mapsto> Pickle (artifact net sgd))) ''run'' 3
        (DataParallel fresh_net) None =
        (ws, Inr (DataParallel m', None)) \<and>
      map_of (state_dict m') = map_of (state_dict net)"
    by blast
  from h1 h2 h3 a b show ?thesis by (intro conjI)
qed







section \<open>Indexing and slicing\<close>

lemma lengths10: "length tokens10 = 10" "length scalars10 = 10" "length (butlast tokens10) = 9"
  by (simp_all add: tokens10_def scalars10_def)







section \<open>The reader: the claims\<close>

text \<open>
  Claim C5 as stated (opening a store whose arrays differ in length fails) fails: the
  store whose \<^verbatim>\<open>questions\<close> array has nine rows and whose other arrays have ten opens,
  and the reader holds the arrays as they are.
\<close>

theorem open_accepts_unequal_lengths_counterexample:
  "length tokens10 = 10 \<and> length (butlast tokens10) = 9 \<and> length scalars10 = 10 \<and>
   ClevrTokensReader_init [''tokens.h5'' \<mapsto> Hdf store_9_of_10] ''tokens.h5'' =
     Inr \<lparr>programs = tokens10, questions = butlast tokens10, answers = scalars10,
          image_indices = scalars10, split_attr = ''train''\<rparr>"
  by (simp add: lengths10 ClevrTokensReader_init_def h5py_File_def dataset_def attr_def
      store_9_of_10_def)

text \<open>
  Claim C5 as amended. Opening returns a reader exactly when an HDF file is at the path
  and has the four datasets and the attribute \<^verbatim>\<open>split\<close>; the reader holds the four
  arrays and the attribute as stored. The lengths of the arrays play no part.
\<close>

theorem init_succeeds_iff:
  "ClevrTokensReader_init fs p = Inr r \<longleftrightarrow>
     (\<exists>h. fs p = Some (Hdf h) \<and>
          map_of (datasets h) ''programs'' = Some (programs r) \<and>
          map_of (datasets h) ''questions'' = Some (questions r) \<and>
          map_of (datasets h) ''answers'' = Some (answers r) \<and>
          map_of (datasets h) ''image_indices'' = Some (image_indices r) \<and>
          map_of (attrs h) ''split'' = Some (split_attr r))"
  by (cases r)
     (auto simp: ClevrTokensReader_init_def h5py_File_def dataset_def attr_def
           split: option.splits node.splits sum.splits)

text \<open>Opening the store of ten rows.\<close>

theorem init_succeeds_iff_witness:
  "ClevrTokensReader_init [''tokens.h5'' \<mapsto> Hdf store10] ''tokens.h5'' = Inr reader10"
proof -
  have "\<exists>h. [''tokens.h5'' \<mapsto> Hdf store10] ''tokens.h5'' = Some (Hdf h) \<and>
          map_of (datasets h) ''programs'' = Some (programs reader10) \<and>
          map_of (datasets h) ''questions'' = Some (questions reader10) \<and>
          map_of (datasets h) ''answers'' = Some (answers reader10) \<and>
          map_of (datasets h) ''image_indices'' = Some (image_indices reader10) \<and>
          map_of (attrs h) ''split'' = Some (split_attr reader10)"
    by (simp add: store10_def reader10_def)
  then show ?thesis
    by (simp only: init_succeeds_iff)
qed

text \<open>
  Claim C6 (\<^verbatim>\<open>__len__\<close> returns the number of rows) against the code: for every
  reader, so also for the reader of the ten-row store, \<^verbatim>\<open>__len__\<close> raises
  \<^verbatim>\<open>TypeError\<close> and returns no length.
\<close>

theorem len_raises_TypeError:
  "ClevrTokensReader_len r = Inl TypeError"
  by (simp add: ClevrTokensReader_len_def call_int_def)




text \<open>
  Claim C8 (\<^verbatim>\<open>keys()\<close> returns the row numbers in ascending order) against the code:
  the class defines no \<^verbatim>\<open>keys\<close>, so for every reader the lookup of that name raises
  \<^verbatim>\<open>AttributeError\<close>.
\<close>

theorem keys_is_not_an_attribute:
  "getattr r ''keys'' = Inl AttributeError"
  by (simp add: getattr_def ClevrTokensReader_dict_def)

end
